theory Spec2Isabelle
  imports Main
begin

section \<open>Data model\<close>

text \<open>
  The views of \<^verbatim>\<open>drf_auth_email/views.py\<close> work on four tables: the users, one table per
  kind of action code, and the bearer tokens. A row is a record, a table is the list of its rows
  in insertion order. \<open>user_seq\<close> is the last value that the sequence of the users' primary
  key has given out; deleting a row does not take it back. Outbound mail is collected in an
  outbox.
\<close>

record user =
  pk :: nat
  email :: string
  is_verified :: bool
  is_active :: bool
  password :: string

datatype kind = SignupCode | PasswordResetCode | EmailChangeCode

text \<open>
  One row of an action-code table. \<open>user_id\<close> is the foreign key to the owning user;
  \<open>new_email\<close> is read for rows of \<open>EmailChangeCode\<close> only.
\<close>

record action_code =
  code :: string
  user_id :: nat
  expires_at :: nat
  ipaddr :: string
  link :: string
  new_email :: string

record token =
  key :: string
  token_user :: nat

datatype mail = CodeMail kind action_code | WelcomeMail string

record state =
  users :: "user list"
  user_seq :: nat
  signup_codes :: "action_code list"
  password_reset_codes :: "action_code list"
  email_change_codes :: "action_code list"
  tokens :: "token list"
  outbox :: "mail list"

subsection \<open>Requests and responses\<close>

text \<open>The fields of \<^verbatim>\<open>request.data\<close> that the views read through a serializer.\<close>

record data =
  d_email :: string
  d_link :: "string option"
  d_password :: string
  d_new_password :: string

text \<open>
  \<open>GET_code\<close> is \<^verbatim>\<open>request.GET.get('code')\<close>, \<open>client_ip\<close> is
  \<^verbatim>\<open>get_client_ip(request)[0]\<close>, and \<open>request_user\<close> is the user object that the
  authentication layer attached to the request (read by the \<^verbatim>\<open>IsAuthenticated\<close> views
  only, whose bodies run for authenticated requests).
\<close>

record request =
  GET_code :: "string option"
  req_data :: data
  client_ip :: "string option"
  request_user :: user

datatype body =
    Detail string
  | Success string
  | SuccessEmail string string
  | Errors
  | UserData user
  | TokenBody string

datatype response = Response body nat

fun status_code :: "response \<Rightarrow> nat" where
  "status_code (Response b n) = n"

definition HTTP_200_OK :: nat where "HTTP_200_OK = 200"
definition HTTP_201_CREATED :: nat where "HTTP_201_CREATED = 201"
definition HTTP_400_BAD_REQUEST :: nat where "HTTP_400_BAD_REQUEST = 400"
definition HTTP_401_UNAUTHORIZED :: nat where "HTTP_401_UNAUTHORIZED = 401"

text \<open>
  What the views take from the rest of the package and from the project settings: the clock,
  the generator of code strings and token keys, the lifetime of a code of each kind, the
  validation of each serializer class of \<^verbatim>\<open>serializers.py\<close>, the write of the user
  serializer, and the authentication backend.
\<close>

record env =
  now :: nat
  new_code :: string
  new_key :: string
  period :: "kind \<Rightarrow> nat"
  signup_is_valid :: "data \<Rightarrow> bool"
  user_is_valid :: "user \<Rightarrow> data \<Rightarrow> bool"
  user_update :: "user \<Rightarrow> data \<Rightarrow> user"
  password_reset_is_valid :: "data \<Rightarrow> bool"
  password_reset_verified_is_valid :: "data \<Rightarrow> bool"
  email_change_is_valid :: "data \<Rightarrow> bool"
  password_change_is_valid :: "data \<Rightarrow> bool"
  login_is_valid :: "data \<Rightarrow> bool"
  authenticate :: "user list \<Rightarrow> string \<Rightarrow> string \<Rightarrow> user option"

section \<open>The storage layer\<close>

text \<open>The table of a model class, and its replacement.\<close>

fun objects :: "kind \<Rightarrow> state \<Rightarrow> action_code list" where
  "objects SignupCode s = signup_codes s"
| "objects PasswordResetCode s = password_reset_codes s"
| "objects EmailChangeCode s = email_change_codes s"

fun set_objects :: "kind \<Rightarrow> action_code list \<Rightarrow> state \<Rightarrow> state" where
  "set_objects SignupCode t s = s\<lparr>signup_codes := t\<rparr>"
| "set_objects PasswordResetCode t s = s\<lparr>password_reset_codes := t\<rparr>"
| "set_objects EmailChangeCode t s = s\<lparr>email_change_codes := t\<rparr>"

text \<open>\<^verbatim>\<open>USER.objects.filter(email=e).first()\<close>\<close>

definition first_by_email :: "string \<Rightarrow> state \<Rightarrow> user option" where
  "first_by_email e s = find (\<lambda>u. email u = e) (users s)"

text \<open>The user row that a foreign key points to.\<close>

definition get_user :: "nat \<Rightarrow> state \<Rightarrow> user option" where
  "get_user i s = find (\<lambda>u. pk u = i) (users s)"

text \<open>The next value of the auto-incremented primary key.\<close>

definition fresh_pk :: "state \<Rightarrow> nat" where
  "fresh_pk s = Suc (user_seq s)"

text \<open>
  \<^verbatim>\<open>instance.save()\<close> of a user object: the row with the object's primary key is
  overwritten, and the object is inserted when no row has that key.
\<close>

definition save_user :: "user \<Rightarrow> state \<Rightarrow> state" where
  "save_user u s =
     (if \<exists>r \<in> set (users s). pk r = pk u
      then s\<lparr>users := map (\<lambda>r. if pk r = pk u then u else r) (users s)\<rparr>
      else s\<lparr>users := users s @ [u]\<rparr>)"

text \<open>
  \<^verbatim>\<open>user.delete()\<close>: the row goes, and with it the rows that hold a foreign key to it
  (the source's comment at the call: ``delete the account (and signup code)'').
\<close>

definition delete_user :: "user \<Rightarrow> state \<Rightarrow> state" where
  "delete_user u s =
     s\<lparr>users := filter (\<lambda>r. pk r \<noteq> pk u) (users s),
       signup_codes := filter (\<lambda>c. user_id c \<noteq> pk u) (signup_codes s),
       password_reset_codes := filter (\<lambda>c. user_id c \<noteq> pk u) (password_reset_codes s),
       email_change_codes := filter (\<lambda>c. user_id c \<noteq> pk u) (email_change_codes s),
       tokens := filter (\<lambda>t. token_user t \<noteq> pk u) (tokens s)\<rparr>"

text \<open>\<^verbatim>\<open>Model.objects.filter(user=action_code.user).delete()\<close>\<close>

definition delete_codes_of :: "kind \<Rightarrow> nat \<Rightarrow> state \<Rightarrow> state" where
  "delete_codes_of k i s = set_objects k (filter (\<lambda>c. user_id c \<noteq> i) (objects k s)) s"

text \<open>
  \<^verbatim>\<open>USER.objects.get_or_create(email=e)\<close>: the user with that email and \<open>False\<close>, or
  a new row and \<open>True\<close>. The new row has the defaults of the user model, which is not part
  of the views file.

  Modelled from the spec: the defaults of a user created by email alone, the ``unverified stub
  user'' of the spec: not verified, active, no password.
\<close>

definition get_or_create :: "string \<Rightarrow> state \<Rightarrow> (user \<times> bool) \<times> state" where
  "get_or_create e s =
     (case find (\<lambda>u. email u = e) (users s) of
        Some u \<Rightarrow> ((u, False), s)
      | None \<Rightarrow>
          (let u = \<lparr>pk = fresh_pk s, email = e, is_verified = False, is_active = True,
                    password = []\<rparr>
           in ((u, True), s\<lparr>users := users s @ [u], user_seq := fresh_pk s\<rparr>)))"

section \<open>The action-code models\<close>

datatype code_error = NotFound | Expired

text \<open>
  Modelled from the spec: the message of the \<^verbatim>\<open>ValueError\<close> that
  \<^verbatim>\<open>check_is_valid\<close> raises (\<^verbatim>\<open>InvalidCode("not found")\<close>,
  \<^verbatim>\<open>InvalidCode("expired")\<close>); the model classes are not part of the views file.
\<close>

fun str_error :: "code_error \<Rightarrow> string" where
  "str_error NotFound = ''not found''"
| "str_error Expired = ''expired''"

text \<open>
  Modelled from the spec: \<^verbatim>\<open>AbstractCodeVerify.check_is_valid\<close>, defined in the model
  classes, which are not part of the views file. The stored code is looked up by exact match of
  the string in the table of its kind; the check fails with ``not found'' when no row matches,
  with ``expired'' when \<open>now > expires_at\<close>, and returns the row otherwise. It reads the table
  and writes nothing.
\<close>

definition check_is_valid :: "nat \<Rightarrow> string option \<Rightarrow> action_code list \<Rightarrow> code_error + action_code" where
  "check_is_valid t param tbl =
     (case param of
        None \<Rightarrow> Inl NotFound
      | Some k \<Rightarrow>
          (case find (\<lambda>c. code c = k) tbl of
             None \<Rightarrow> Inl NotFound
           | Some c \<Rightarrow> if t > expires_at c then Inl Expired else Inr c))"

text \<open>
  Modelled from the spec: \<^verbatim>\<open>verify_user\<close>, \<^verbatim>\<open>change_user_password\<close> and
  \<^verbatim>\<open>change_user_email\<close> of the model classes, which are not part of the views file: set
  \<open>is_verified\<close>, the password credential, or the email of the user that owns the code.
\<close>

definition update_user :: "nat \<Rightarrow> (user \<Rightarrow> user) \<Rightarrow> state \<Rightarrow> state" where
  "update_user i f s = s\<lparr>users := map (\<lambda>r. if pk r = i then f r else r) (users s)\<rparr>"

definition verify_user :: "action_code \<Rightarrow> state \<Rightarrow> state" where
  "verify_user c s = update_user (user_id c) (\<lambda>u. u\<lparr>is_verified := True\<rparr>) s"

definition change_user_password :: "action_code \<Rightarrow> string \<Rightarrow> state \<Rightarrow> state" where
  "change_user_password c p s = update_user (user_id c) (\<lambda>u. u\<lparr>password := p\<rparr>) s"

definition change_user_email :: "action_code \<Rightarrow> state \<Rightarrow> state" where
  "change_user_email c s = update_user (user_id c) (\<lambda>u. u\<lparr>email := new_email c\<rparr>) s"

text \<open>
  Modelled from the spec: \<^verbatim>\<open>Model.objects.create(user, ipaddr, link[, new_email])\<close> and
  \<^verbatim>\<open>send_email\<close> of the model classes, which are not part of the views file: the new row
  gets a generated code string and an expiry one period after its creation, and the code is
  handed to the email dispatcher.
\<close>

definition create_code :: "env \<Rightarrow> kind \<Rightarrow> nat \<Rightarrow> string \<Rightarrow> string \<Rightarrow> string \<Rightarrow> state \<Rightarrow> action_code \<times> state" where
  "create_code e k i ip l ne s =
     (let c = \<lparr>code = new_code e, user_id = i, expires_at = now e + period e k,
               ipaddr = ip, link = l, new_email = ne\<rparr>
      in (c, set_objects k (objects k s @ [c]) s))"

definition send_email :: "kind \<Rightarrow> action_code \<Rightarrow> state \<Rightarrow> state" where
  "send_email k c s = s\<lparr>outbox := outbox s @ [CodeMail k c]\<rparr>"

text \<open>\<^verbatim>\<open>get_client_ip(request)[0] or '0.0.0.0'\<close> and \<^verbatim>\<open>serializer.data.get('link') or ''\<close>\<close>

definition ip_or_default :: "request \<Rightarrow> string" where
  "ip_or_default req = (case client_ip req of None \<Rightarrow> ''0.0.0.0'' | Some a \<Rightarrow> if a = [] then ''0.0.0.0'' else a)"

definition link_or_empty :: "data \<Rightarrow> string" where
  "link_or_empty d = (case d_link d of None \<Rightarrow> [] | Some l \<Rightarrow> l)"

text \<open>
  The password credential: \<^verbatim>\<open>check_password\<close> and \<^verbatim>\<open>set_password\<close> of the user
  model, with the hash left out.
\<close>

definition check_password :: "user \<Rightarrow> string \<Rightarrow> bool" where
  "check_password u p = (password u = p)"

definition set_password :: "user \<Rightarrow> string \<Rightarrow> user" where
  "set_password u p = u\<lparr>password := p\<rparr>"

section \<open>The views\<close>

subsection \<open>The two generic views\<close>

fun proceed_action :: "kind \<Rightarrow> string" where
  "proceed_action SignupCode = ''verify signup''"
| "proceed_action PasswordResetCode = ''password reset''"
| "proceed_action EmailChangeCode = ''email change''"

text \<open>\<^verbatim>\<open>ActionCodeVerifyView.get\<close>, with \<open>k\<close> the \<^verbatim>\<open>action_code_model\<close> of the subclass.\<close>

definition ActionCodeVerifyView_get :: "kind \<Rightarrow> env \<Rightarrow> request \<Rightarrow> state \<Rightarrow> response \<times> state" where
  "ActionCodeVerifyView_get k e req s =
     (case check_is_valid (now e) (GET_code req) (objects k s) of
        Inl err \<Rightarrow> (Response (Detail (str_error err)) HTTP_400_BAD_REQUEST, s)
      | Inr c \<Rightarrow>
          (Response (Success (''The given `code` parameter is valid, can proceed to ''
                              @ proceed_action k @ ''.'')) HTTP_200_OK, s))"

text \<open>
  \<^verbatim>\<open>ActionVerifyView.post\<close>, a template with two hooks: \<open>handle_request\<close> returns a
  response (\<open>Inl\<close>) or the keyword arguments (\<open>Inr\<close>) for \<open>handle_action_code\<close>.
\<close>

definition ActionVerifyView_post ::
  "kind \<Rightarrow> string \<Rightarrow> (env \<Rightarrow> request \<Rightarrow> action_code \<Rightarrow> state \<Rightarrow> (response + 'kw) \<times> state)
     \<Rightarrow> (action_code \<Rightarrow> 'kw \<Rightarrow> state \<Rightarrow> state) \<Rightarrow> env \<Rightarrow> request \<Rightarrow> state \<Rightarrow> response \<times> state" where
  "ActionVerifyView_post k success_message handle_request handle_action_code e req s =
     (case check_is_valid (now e) (GET_code req) (objects k s) of
        Inl err \<Rightarrow> (Response (Detail (str_error err)) HTTP_400_BAD_REQUEST, s)
      | Inr action_code \<Rightarrow>
          (case handle_request e req action_code s of
             (Inl resp, s1) \<Rightarrow> (resp, s1)
           | (Inr kwargs, s1) \<Rightarrow>
               (Response (Success success_message) HTTP_200_OK,
                handle_action_code action_code kwargs s1)))"

text \<open>The default \<^verbatim>\<open>handle_request\<close>: no keyword arguments.\<close>

definition default_handle_request :: "env \<Rightarrow> request \<Rightarrow> action_code \<Rightarrow> state \<Rightarrow> (response + unit) \<times> state" where
  "default_handle_request e req action_code s = (Inr (), s)"

subsection \<open>Signup\<close>

definition check_verified_users :: "data \<Rightarrow> state \<Rightarrow> (string + user) \<times> state" where
  "check_verified_users d s =
     (case get_or_create (d_email d) s of
        ((u, is_created), s1) \<Rightarrow>
          if \<not> is_created \<and> is_verified u then (Inl ''Email address already taken.'', s1)
          else (Inr u, s1))"

text \<open>
  \<^verbatim>\<open>Signup.post\<close>. The user serializer writes the request's fields to the user object and
  saves it; the primary key is not a field it writes.
\<close>

definition Signup_post :: "env \<Rightarrow> request \<Rightarrow> state \<Rightarrow> response \<times> state" where
  "Signup_post e req s =
     (if \<not> signup_is_valid e (req_data req) then (Response Errors HTTP_400_BAD_REQUEST, s)
      else
        (case check_verified_users (req_data req) s of
           (Inl err, s1) \<Rightarrow> (Response (Detail err) HTTP_400_BAD_REQUEST, s1)
         | (Inr u, s1) \<Rightarrow>
             if \<not> user_is_valid e u (req_data req) then (Response Errors HTTP_400_BAD_REQUEST, s1)
             else
               (let u' = (user_update e u (req_data req))\<lparr>pk := pk u\<rparr>;
                    s2 = save_user u' s1;
                    (signup_code, s3) =
                       create_code e SignupCode (pk u') (ip_or_default req)
                         (link_or_empty (req_data req)) [] s2;
                    s4 = send_email SignupCode signup_code s3
                in (Response (UserData u') HTTP_201_CREATED, s4))))"

definition send_welcome_email :: "action_code \<Rightarrow> state \<Rightarrow> state" where
  "send_welcome_email action_code s =
     (case get_user (user_id action_code) s of
        None \<Rightarrow> s
      | Some u \<Rightarrow> s\<lparr>outbox := outbox s @ [WelcomeMail (email u)]\<rparr>)"

definition SignupVerify_handle_action_code :: "action_code \<Rightarrow> unit \<Rightarrow> state \<Rightarrow> state" where
  "SignupVerify_handle_action_code action_code kwargs s =
     delete_codes_of SignupCode (user_id action_code)
       (send_welcome_email action_code (verify_user action_code s))"

definition SignupVerify_post :: "env \<Rightarrow> request \<Rightarrow> state \<Rightarrow> response \<times> state" where
  "SignupVerify_post =
     ActionVerifyView_post SignupCode ''User email address has been verified.''
       default_handle_request SignupVerify_handle_action_code"

subsection \<open>Password reset\<close>

definition PasswordReset_post :: "env \<Rightarrow> request \<Rightarrow> state \<Rightarrow> response \<times> state" where
  "PasswordReset_post e req s =
     (if \<not> password_reset_is_valid e (req_data req) then (Response Errors HTTP_400_BAD_REQUEST, s)
      else
        (case first_by_email (d_email (req_data req)) s of
           Some u \<Rightarrow>
             if is_verified u \<and> is_active u then
               (let (password_reset_code, s1) =
                       create_code e PasswordResetCode (pk u) (ip_or_default req)
                         (link_or_empty (req_data req)) [] s;
                    s2 = send_email PasswordResetCode password_reset_code s1
                in (Response (SuccessEmail
                      ''The email with the password reset code will be sent soon.'' (email u))
                      HTTP_201_CREATED, s2))
             else (Response (Detail ''Password reset not allowed.'') HTTP_400_BAD_REQUEST, s)
         | None \<Rightarrow> (Response (Detail ''Password reset not allowed.'') HTTP_400_BAD_REQUEST, s)))"

definition PasswordResetVerify_handle_request :: "env \<Rightarrow> request \<Rightarrow> action_code \<Rightarrow> state \<Rightarrow> (response + data) \<times> state" where
  "PasswordResetVerify_handle_request e req action_code s =
     (if \<not> password_reset_verified_is_valid e (req_data req)
      then (Inl (Response Errors HTTP_400_BAD_REQUEST), s)
      else (Inr (req_data req), s))"

definition PasswordResetVerify_handle_action_code :: "action_code \<Rightarrow> data \<Rightarrow> state \<Rightarrow> state" where
  "PasswordResetVerify_handle_action_code action_code serializer s =
     delete_codes_of PasswordResetCode (user_id action_code)
       (change_user_password action_code (d_password serializer) s)"

definition PasswordResetVerify_post :: "env \<Rightarrow> request \<Rightarrow> state \<Rightarrow> response \<times> state" where
  "PasswordResetVerify_post =
     ActionVerifyView_post PasswordResetCode ''User password has been reset.''
       PasswordResetVerify_handle_request PasswordResetVerify_handle_action_code"

subsection \<open>Email change\<close>

definition EmailChange_post :: "env \<Rightarrow> request \<Rightarrow> state \<Rightarrow> response \<times> state" where
  "EmailChange_post e req s =
     (if \<not> email_change_is_valid e (req_data req) then (Response Errors HTTP_400_BAD_REQUEST, s)
      else
        (let new_email = d_email (req_data req);
             user_with_new_email = first_by_email new_email s
         in if (case user_with_new_email of None \<Rightarrow> False | Some u \<Rightarrow> is_verified u)
            then (Response (Detail ''Email address already taken.'') HTTP_400_BAD_REQUEST, s)
            else
              (let (email_change_code, s1) =
                      create_code e EmailChangeCode (pk (request_user req)) (ip_or_default req)
                        (link_or_empty (req_data req)) new_email s;
                   s2 = send_email EmailChangeCode email_change_code s1
               in (Response (SuccessEmail
                     ''The email with the email change code will be sent soon.'' new_email)
                     HTTP_201_CREATED, s2))))"

definition EmailChangeVerify_handle_request :: "env \<Rightarrow> request \<Rightarrow> action_code \<Rightarrow> state \<Rightarrow> (response + unit) \<times> state" where
  "EmailChangeVerify_handle_request e req action_code s =
     (case first_by_email (new_email action_code) s of
        None \<Rightarrow> (Inr (), s)
      | Some user_with_new_email \<Rightarrow>
          if is_verified user_with_new_email
          then (Inl (Response (Detail ''Email address already taken.'') HTTP_400_BAD_REQUEST), s)
          else (Inr (), delete_user user_with_new_email s))"

definition EmailChangeVerify_handle_action_code :: "action_code \<Rightarrow> unit \<Rightarrow> state \<Rightarrow> state" where
  "EmailChangeVerify_handle_action_code action_code kwargs s =
     delete_codes_of EmailChangeCode (user_id action_code) (change_user_email action_code s)"

definition EmailChangeVerify_post :: "env \<Rightarrow> request \<Rightarrow> state \<Rightarrow> response \<times> state" where
  "EmailChangeVerify_post =
     ActionVerifyView_post EmailChangeCode ''Email address has been changed.''
       EmailChangeVerify_handle_request EmailChangeVerify_handle_action_code"

subsection \<open>Password change, login, logout\<close>

definition PasswordChange_post :: "env \<Rightarrow> request \<Rightarrow> state \<Rightarrow> response \<times> state" where
  "PasswordChange_post e req s =
     (if \<not> password_change_is_valid e (req_data req) then (Response Errors HTTP_400_BAD_REQUEST, s)
      else
        (let u = request_user req
         in if \<not> check_password u (d_password (req_data req))
            then (Response (Detail
                   ''The given `password` field does not match with the user password.'')
                   HTTP_400_BAD_REQUEST, s)
            else (Response (Success ''Password has been changed.'') HTTP_200_OK,
                  save_user (set_password u (d_new_password (req_data req))) s)))"

text \<open>\<^verbatim>\<open>Token.objects.get_or_create(user=user)\<close>\<close>

definition token_get_or_create :: "env \<Rightarrow> user \<Rightarrow> state \<Rightarrow> token \<times> state" where
  "token_get_or_create e u s =
     (case find (\<lambda>t. token_user t = pk u) (tokens s) of
        Some t \<Rightarrow> (t, s)
      | None \<Rightarrow>
          (let t = \<lparr>key = new_key e, token_user = pk u\<rparr>
           in (t, s\<lparr>tokens := tokens s @ [t]\<rparr>)))"

definition Login_post :: "env \<Rightarrow> request \<Rightarrow> state \<Rightarrow> response \<times> state" where
  "Login_post e req s =
     (if \<not> login_is_valid e (req_data req) then (Response Errors HTTP_400_BAD_REQUEST, s)
      else
        (case authenticate e (users s) (d_email (req_data req)) (d_password (req_data req)) of
           None \<Rightarrow>
             (Response (Detail ''Unable to login with provided credentials.'')
                HTTP_401_UNAUTHORIZED, s)
         | Some u \<Rightarrow>
             if \<not> is_verified u
             then (Response (Detail ''User account not verified.'') HTTP_401_UNAUTHORIZED, s)
             else if \<not> is_active u
             then (Response (Detail ''User account not active.'') HTTP_401_UNAUTHORIZED, s)
             else (case token_get_or_create e u s of
                     (t, s1) \<Rightarrow> (Response (TokenBody (key t)) HTTP_200_OK, s1))))"

definition Logout_post :: "env \<Rightarrow> request \<Rightarrow> state \<Rightarrow> response \<times> state" where
  "Logout_post e req s =
     (Response (Success ''User logged out.'') HTTP_200_OK,
      s\<lparr>tokens := filter (\<lambda>t. token_user t \<noteq> pk (request_user req)) (tokens s)\<rparr>)"

subsection \<open>The endpoints by kind\<close>

text \<open>The pre-check endpoint and the consumption endpoint of each kind of code.\<close>

definition precheck :: "kind \<Rightarrow> env \<Rightarrow> request \<Rightarrow> state \<Rightarrow> response \<times> state" where
  "precheck k = ActionCodeVerifyView_get k"

fun consume :: "kind \<Rightarrow> env \<Rightarrow> request \<Rightarrow> state \<Rightarrow> response \<times> state" where
  "consume SignupCode = SignupVerify_post"
| "consume PasswordResetCode = PasswordResetVerify_post"
| "consume EmailChangeCode = EmailChangeVerify_post"

text \<open>A sequence of pre-check calls, each with its own clock reading and request.\<close>

fun prechecks :: "kind \<Rightarrow> (env \<times> request) list \<Rightarrow> state \<Rightarrow> response list \<times> state" where
  "prechecks k [] s = ([], s)"
| "prechecks k ((e, req) # rest) s =
     (case precheck k e req s of
        (r, s1) \<Rightarrow> (case prechecks k rest s1 of (rs, s2) \<Rightarrow> (r # rs, s2)))"

text \<open>Every operation of the views file, by name.\<close>

datatype operation =
    Precheck kind
  | Consume kind
  | SignupIssue
  | PasswordResetIssue
  | EmailChangeIssue
  | PasswordChange
  | Login
  | Logout

fun run :: "operation \<Rightarrow> env \<Rightarrow> request \<Rightarrow> state \<Rightarrow> response \<times> state" where
  "run (Precheck k) = precheck k"
| "run (Consume k) = consume k"
| "run SignupIssue = Signup_post"
| "run PasswordResetIssue = PasswordReset_post"
| "run EmailChangeIssue = EmailChange_post"
| "run PasswordChange = PasswordChange_post"
| "run Login = Login_post"
| "run Logout = Logout_post"

text \<open>A failure result is a response of the 4xx class; the views return 200, 201, 400 and 401.\<close>

definition is_failure :: "response \<Rightarrow> bool" where
  "is_failure r = (400 \<le> status_code r)"

text \<open>
  The structured failure of a code that does not validate: status 400 with the message of the
  validation error.
\<close>

definition InvalidCode :: "code_error \<Rightarrow> response" where
  "InvalidCode err = Response (Detail (str_error err)) HTTP_400_BAD_REQUEST"

text \<open>The answer of the pre-check endpoint to a code that validates.\<close>

definition ValidCode :: "kind \<Rightarrow> response" where
  "ValidCode k =
     Response (Success (''The given `code` parameter is valid, can proceed to ''
                        @ proceed_action k @ ''.'')) HTTP_200_OK"

definition EmailTaken :: response where
  "EmailTaken = Response (Detail ''Email address already taken.'') HTTP_400_BAD_REQUEST"

definition NotAllowed :: response where
  "NotAllowed = Response (Detail ''Password reset not allowed.'') HTTP_400_BAD_REQUEST"

text \<open>
  A bearer token is valid when its row is in the token table and the user it belongs to exists
  and is active.
\<close>

definition token_valid :: "state \<Rightarrow> string \<Rightarrow> bool" where
  "token_valid s k =
     (\<exists>t \<in> set (tokens s). key t = k \<and> (\<exists>u \<in> set (users s). pk u = token_user t \<and> is_active u))"

section \<open>Example data\<close>

definition alice :: user where
  "alice = \<lparr>pk = 1, email = ''a@example.com'', is_verified = True, is_active = True,
            password = ''old''\<rparr>"

definition bob :: user where
  "bob = \<lparr>pk = 2, email = ''b@example.com'', is_verified = False, is_active = True,
          password = []\<rparr>"

definition carol :: user where
  "carol = \<lparr>pk = 3, email = ''c@example.com'', is_verified = True, is_active = True,
            password = ''pw3''\<rparr>"

definition k1 :: action_code where
  "k1 = \<lparr>code = ''k1'', user_id = 1, expires_at = 50, ipaddr = ''0.0.0.0'', link = [],
         new_email = ''b@example.com''\<rparr>"

definition k2 :: action_code where
  "k2 = \<lparr>code = ''k2'', user_id = 1, expires_at = 60, ipaddr = ''0.0.0.0'', link = [],
         new_email = ''c@example.com''\<rparr>"

definition k3 :: action_code where
  "k3 = \<lparr>code = ''k3'', user_id = 3, expires_at = 5, ipaddr = ''0.0.0.0'', link = [],
         new_email = ''d@example.com''\<rparr>"

text \<open>Alice holds two codes of each kind, Carol one that has expired at time 10.\<close>

definition st0 :: state where
  "st0 = \<lparr>users = [alice, bob, carol],
          user_seq = 3,
          signup_codes = [k1, k2, k3],
          password_reset_codes = [k1, k2, k3],
          email_change_codes = [k1, k2, k3],
          tokens = [\<lparr>key = ''t1'', token_user = 1\<rparr>],
          outbox = []\<rparr>"

definition empty_state :: state where
  "empty_state = \<lparr>users = [], user_seq = 0, signup_codes = [], password_reset_codes = [],
                  email_change_codes = [], tokens = [], outbox = []\<rparr>"

definition env0 :: env where
  "env0 = \<lparr>now = 10, new_code = ''fresh'', new_key = ''key'', period = (\<lambda>k. 100),
           signup_is_valid = (\<lambda>d. True),
           user_is_valid = (\<lambda>u d. True),
           user_update = (\<lambda>u d. u\<lparr>password := d_password d\<rparr>),
           password_reset_is_valid = (\<lambda>d. True),
           password_reset_verified_is_valid = (\<lambda>d. True),
           email_change_is_valid = (\<lambda>d. True),
           password_change_is_valid = (\<lambda>d. True),
           login_is_valid = (\<lambda>d. True),
           authenticate = (\<lambda>us e p. find (\<lambda>u. email u = e \<and> password u = p) us)\<rparr>"

text \<open>The same collaborators, with a user serializer that rejects the request's fields.\<close>

definition env_reject :: env where
  "env_reject = env0\<lparr>user_is_valid := (\<lambda>u d. False)\<rparr>"

definition req0 :: "string \<Rightarrow> string \<Rightarrow> request" where
  "req0 c addr =
     \<lparr>GET_code = Some c,
      req_data = \<lparr>d_email = addr, d_link = None, d_password = ''old'',
                  d_new_password = ''Str0ngP@ss''\<rparr>,
      client_ip = None,
      request_user = alice\<rparr>"

section \<open>Auxiliary facts\<close>

lemmas example_defs = alice_def bob_def carol_def k1_def k2_def k3_def st0_def empty_state_def
  env0_def env_reject_def req0_def

lemmas status_defs = HTTP_200_OK_def HTTP_201_CREATED_def HTTP_400_BAD_REQUEST_def
  HTTP_401_UNAUTHORIZED_def

lemmas consume_defs = SignupVerify_post_def PasswordResetVerify_post_def EmailChangeVerify_post_def
  ActionVerifyView_post_def default_handle_request_def
  SignupVerify_handle_action_code_def PasswordResetVerify_handle_request_def
  PasswordResetVerify_handle_action_code_def EmailChangeVerify_handle_request_def
  EmailChangeVerify_handle_action_code_def verify_user_def change_user_password_def
  change_user_email_def

lemmas storage_defs = send_welcome_email_def update_user_def delete_codes_of_def delete_user_def
  check_is_valid_def get_user_def first_by_email_def

lemma find_distinct_key:
  "distinct (map f xs) \<Longrightarrow> x \<in> set xs \<Longrightarrow> find (\<lambda>y. f y = f x) xs = Some x"
  by (induction xs) (auto simp: image_iff)

lemma find_in_set: "find P xs = Some x \<Longrightarrow> x \<in> set xs \<and> P x"
  by (induction xs) (auto split: if_splits)

lemma check_is_valid_Inr:
  "check_is_valid t p tbl = Inr c \<Longrightarrow> c \<in> set tbl \<and> p = Some (code c) \<and> \<not> t > expires_at c"
  by (auto simp: check_is_valid_def split: option.splits if_splits dest: find_in_set)

lemma check_is_valid_member:
  "distinct (map code tbl) \<Longrightarrow> c \<in> set tbl \<Longrightarrow>
   check_is_valid t (Some (code c)) tbl = (if t > expires_at c then Inl Expired else Inr c)"
  by (simp add: check_is_valid_def find_distinct_key)

lemma check_is_valid_absent:
  "\<forall>x \<in> set tbl. code x \<noteq> k \<Longrightarrow> check_is_valid t (Some k) tbl = Inl NotFound"
  by (auto simp: check_is_valid_def find_None_iff split: option.splits)

lemma objects_set_objects [simp]: "objects k (set_objects k t s) = t"
  by (cases k) simp_all

lemma objects_delete_codes_of [simp]:
  "objects k (delete_codes_of k i s) = filter (\<lambda>c. user_id c \<noteq> i) (objects k s)"
  by (simp add: delete_codes_of_def)

lemma objects_update_user [simp]: "objects k (update_user i f s) = objects k s"
  by (cases k) (simp_all add: update_user_def)

lemma objects_send_welcome_email [simp]: "objects k (send_welcome_email c s) = objects k s"
  by (cases k) (simp_all add: send_welcome_email_def split: option.splits)

lemma objects_delete_user:
  "objects k (delete_user u s) = filter (\<lambda>c. user_id c \<noteq> pk u) (objects k s)"
  by (cases k) (simp_all add: delete_user_def)

text \<open>What a successful consumption leaves in the table of its kind.\<close>

lemma consume_success:
  assumes "consume k e req s = (resp, s')" and "status_code resp = HTTP_200_OK"
  shows "\<exists>c. check_is_valid (now e) (GET_code req) (objects k s) = Inr c
            \<and> set (objects k s') \<subseteq> {x \<in> set (objects k s). user_id x \<noteq> user_id c}"
  using assms
  by (cases k)
     (auto simp: consume_defs objects_delete_user status_defs
        simp del: objects.simps
        split: sum.splits option.splits if_splits prod.splits)

lemma consume_invalid:
  "check_is_valid (now e) (GET_code req) (objects k s) = Inl err \<Longrightarrow>
   consume k e req s = (InvalidCode err, s)"
  by (cases k) (simp_all add: consume_defs InvalidCode_def)

lemma precheck_invalid:
  "check_is_valid (now e) (GET_code req) (objects k s) = Inl err \<Longrightarrow>
   precheck k e req s = (InvalidCode err, s)"
  by (simp add: precheck_def ActionCodeVerifyView_get_def InvalidCode_def)

lemma precheck_valid:
  "check_is_valid (now e) (GET_code req) (objects k s) = Inr c \<Longrightarrow>
   precheck k e req s =
     (Response (Success (''The given `code` parameter is valid, can proceed to ''
                         @ proceed_action k @ ''.'')) HTTP_200_OK, s)"
  by (simp add: precheck_def ActionCodeVerifyView_get_def)

lemma precheck_state: "snd (precheck k e req s) = s"
  by (simp add: precheck_def ActionCodeVerifyView_get_def split: sum.splits)

lemma prechecks_state: "snd (prechecks k rs s) = s"
proof (induction rs arbitrary: s)
  case Nil
  show ?case by simp
next
  case (Cons a rs)
  obtain e req where a: "a = (e, req)" by (cases a)
  obtain r s1 where p: "precheck k e req s = (r, s1)" by (cases "precheck k e req s")
  with precheck_state[of k e req s] have s1: "s1 = s" by simp
  obtain rs' s2 where q: "prechecks k rs s = (rs', s2)" by (cases "prechecks k rs s")
  with Cons.IH[of s] have "s2 = s" by simp
  with a p s1 q show ?case by simp
qed

section \<open>Claims\<close>

text \<open>
  Claim C1. A user holds any number of codes of one kind; the code strings of a table are
  unique. When the consumption endpoint of that kind succeeds on one of the user's codes, no
  code of that kind owned by that user is left in the table: the consumed code and every
  sibling are deleted.
\<close>

theorem consume_deletes_all_codes_of_user:
  assumes "c \<in> set (objects k s)" and "distinct (map code (objects k s))"
      and "GET_code req = Some (code c)"
      and "consume k e req s = (resp, s')" and "status_code resp = HTTP_200_OK"
  shows "filter (\<lambda>x. user_id x = user_id c) (objects k s') = []"
proof -
  from consume_success[OF assms(4,5)] obtain c' where
    v: "check_is_valid (now e) (GET_code req) (objects k s) = Inr c'" and
    sub: "set (objects k s') \<subseteq> {x \<in> set (objects k s). user_id x \<noteq> user_id c'}" by blast
  from v assms(1,2,3) have "c' = c"
    by (simp add: check_is_valid_member split: if_splits)
  with sub show ?thesis by (auto simp: filter_empty_conv)
qed

theorem consume_deletes_all_codes_of_user_witness:
  "length (filter (\<lambda>x. user_id x = user_id k1) (objects EmailChangeCode st0)) = 2
   \<and> status_code (fst (consume EmailChangeCode env0 (req0 ''k1'' []) st0)) = HTTP_200_OK
   \<and> filter (\<lambda>x. user_id x = user_id k1)
        (objects EmailChangeCode (snd (consume EmailChangeCode env0 (req0 ''k1'' []) st0))) = []"
proof -
  have m: "k1 \<in> set (objects EmailChangeCode st0)" by (simp add: example_defs)
  have d: "distinct (map code (objects EmailChangeCode st0))" by (simp add: example_defs)
  have g: "GET_code (req0 ''k1'' []) = Some (code k1)" by (simp add: example_defs)
  have ok: "status_code (fst (consume EmailChangeCode env0 (req0 ''k1'' []) st0)) = HTTP_200_OK"
    by (simp add: consume_defs storage_defs example_defs status_defs)
  have n: "length (filter (\<lambda>x. user_id x = user_id k1) (objects EmailChangeCode st0)) = 2"
    by (simp add: example_defs)
  from consume_deletes_all_codes_of_user[OF m d g _ ok] n ok show ?thesis by simp
qed

text \<open>
  Claim C2. After a consumption that succeeded, a second consumption request that presents the
  same code string, whatever its body and whenever it comes, fails with \<open>InvalidCode\<close>
  (status 400, cause ``not found'') and leaves the state as it found it.
\<close>

theorem second_consumption_fails:
  assumes "distinct (map code (objects k s))"
      and "consume k e req s = (resp, s')" and "status_code resp = HTTP_200_OK"
      and "GET_code req' = GET_code req"
  shows "consume k e' req' s' = (InvalidCode NotFound, s')"
proof -
  from consume_success[OF assms(2,3)] obtain c where
    v: "check_is_valid (now e) (GET_code req) (objects k s) = Inr c" and
    sub: "set (objects k s') \<subseteq> {x \<in> set (objects k s). user_id x \<noteq> user_id c}" by blast
  from check_is_valid_Inr[OF v] have c: "c \<in> set (objects k s)" and g: "GET_code req = Some (code c)"
    by simp_all
  from assms(1) have inj: "inj_on code (set (objects k s))" by (simp add: distinct_map)
  have "\<forall>x \<in> set (objects k s'). code x \<noteq> code c"
  proof
    fix x assume x: "x \<in> set (objects k s')"
    with sub have xs: "x \<in> set (objects k s)" and ne: "user_id x \<noteq> user_id c" by auto
    show "code x \<noteq> code c"
    proof
      assume "code x = code c"
      with inj xs c have "x = c" by (auto dest: inj_onD)
      with ne show False by simp
    qed
  qed
  then have "check_is_valid (now e') (GET_code req') (objects k s') = Inl NotFound"
    using assms(4) g by (simp add: check_is_valid_absent)
  then show ?thesis by (rule consume_invalid)
qed

theorem second_consumption_fails_witness:
  "status_code (fst (consume SignupCode env0 (req0 ''k1'' []) st0)) = HTTP_200_OK
   \<and> consume SignupCode env0 (req0 ''k1'' ''again'') (snd (consume SignupCode env0 (req0 ''k1'' []) st0))
       = (InvalidCode NotFound, snd (consume SignupCode env0 (req0 ''k1'' []) st0))"
proof -
  have d: "distinct (map code (objects SignupCode st0))" by (simp add: example_defs)
  have ok: "status_code (fst (consume SignupCode env0 (req0 ''k1'' []) st0)) = HTTP_200_OK"
    by (simp add: consume_defs storage_defs example_defs status_defs)
  have g: "GET_code (req0 ''k1'' ''again'') = GET_code (req0 ''k1'' [])" by (simp add: example_defs)
  from second_consumption_fails[OF d _ ok g, where s' = "snd (consume SignupCode env0 (req0 ''k1'' []) st0)" and e' = env0] ok
  show ?thesis by simp
qed

text \<open>
  Claim C3. A stored code whose expiry has passed (\<open>now > expires_at\<close>) fails at both entry
  points, the pre-check and the consumption, with \<open>InvalidCode\<close> (status 400) and no change of
  state; the cause is \<open>Expired\<close>, which differs from the \<open>NotFound\<close> of an unknown code.
\<close>

theorem expired_code_is_invalid:
  assumes "c \<in> set (objects k s)" and "distinct (map code (objects k s))"
      and "GET_code req = Some (code c)" and "now e > expires_at c"
  shows "check_is_valid (now e) (GET_code req) (objects k s) = Inl Expired
         \<and> precheck k e req s = (InvalidCode Expired, s)
         \<and> consume k e req s = (InvalidCode Expired, s)
         \<and> status_code (InvalidCode Expired) = HTTP_400_BAD_REQUEST
         \<and> InvalidCode Expired \<noteq> InvalidCode NotFound"
proof -
  from assms have v: "check_is_valid (now e) (GET_code req) (objects k s) = Inl Expired"
    by (simp add: check_is_valid_member)
  have "InvalidCode Expired \<noteq> InvalidCode NotFound" by (simp add: InvalidCode_def)
  moreover have "status_code (InvalidCode Expired) = HTTP_400_BAD_REQUEST"
    by (simp add: InvalidCode_def)
  ultimately show ?thesis using v precheck_invalid[OF v] consume_invalid[OF v] by simp
qed

theorem expired_code_is_invalid_witness:
  "precheck PasswordResetCode env0 (req0 ''k3'' []) st0 = (InvalidCode Expired, st0)
   \<and> consume PasswordResetCode env0 (req0 ''k3'' []) st0 = (InvalidCode Expired, st0)"
proof -
  have m: "k3 \<in> set (objects PasswordResetCode st0)" by (simp add: example_defs)
  have d: "distinct (map code (objects PasswordResetCode st0))" by (simp add: example_defs)
  have g: "GET_code (req0 ''k3'' []) = Some (code k3)" by (simp add: example_defs)
  have t: "now env0 > expires_at k3" by (simp add: example_defs)
  from expired_code_is_invalid[OF m d g t] show ?thesis by simp
qed

lemma prechecks_valid:
  assumes m: "c \<in> set (objects k s)" and d: "distinct (map code (objects k s))"
  shows "\<forall>(e, req) \<in> set rs. GET_code req = Some (code c) \<and> now e \<le> expires_at c \<Longrightarrow>
         fst (prechecks k rs s) = replicate (length rs) (ValidCode k)"
proof (induction rs)
  case Nil
  show ?case by simp
next
  case (Cons a rs)
  obtain e' req' where a: "a = (e', req')" by (cases a)
  with Cons.prems have g: "GET_code req' = Some (code c)" and t: "now e' \<le> expires_at c"
    by simp_all
  from m d g t have "check_is_valid (now e') (GET_code req') (objects k s) = Inr c"
    by (simp add: check_is_valid_member)
  from precheck_valid[OF this] have p: "precheck k e' req' s = (ValidCode k, s)"
    by (simp add: ValidCode_def)
  obtain rs' s2 where q: "prechecks k rs s = (rs', s2)" by (cases "prechecks k rs s")
  from Cons.prems have "\<forall>(e, req) \<in> set rs. GET_code req = Some (code c) \<and> now e \<le> expires_at c"
    by simp
  from Cons.IH[OF this] q have "rs' = replicate (length rs) (ValidCode k)" by simp
  with a p q show ?case by simp
qed

text \<open>
  Claim C4. The pre-check endpoint never changes the state, whatever the request; and for a
  stored code, any sequence of pre-check calls that present it at times up to its expiry
  answers every call with the same success response.
\<close>

theorem precheck_is_read_only:
  "snd (precheck k e req s) = s
   \<and> snd (prechecks k rs s) = s
   \<and> (c \<in> set (objects k s) \<and> distinct (map code (objects k s))
        \<and> (\<forall>(e, req) \<in> set rs. GET_code req = Some (code c) \<and> now e \<le> expires_at c)
      \<longrightarrow> fst (prechecks k rs s) = replicate (length rs) (ValidCode k))"
  using precheck_state[of k e req s] prechecks_state[of k rs s] prechecks_valid[of c k s rs]
  by blast

theorem precheck_is_read_only_witness:
  "prechecks SignupCode
     [(env0, req0 ''k1'' []), (env0\<lparr>now := 50\<rparr>, req0 ''k1'' ''b''), (env0, req0 ''k1'' [])] st0
   = ([ValidCode SignupCode, ValidCode SignupCode, ValidCode SignupCode], st0)"
proof -
  have h: "k1 \<in> set (objects SignupCode st0) \<and> distinct (map code (objects SignupCode st0))
        \<and> (\<forall>(e, req) \<in> set [(env0, req0 ''k1'' []), (env0\<lparr>now := 50\<rparr>, req0 ''k1'' ''b''),
                              (env0, req0 ''k1'' [])].
              GET_code req = Some (code k1) \<and> now e \<le> expires_at k1)"
    by (simp add: example_defs)
  from precheck_is_read_only[where k = SignupCode and s = st0 and c = k1 and rs =
            "[(env0, req0 ''k1'' []), (env0\<lparr>now := 50\<rparr>, req0 ''k1'' ''b''), (env0, req0 ''k1'' [])]"] h
  show ?thesis by (simp add: prod_eq_iff del: prechecks.simps)
qed

lemma find_filter_implied:
  "(\<And>x. P x \<Longrightarrow> Q x) \<Longrightarrow> find P (filter Q xs) = find P xs"
  by (induction xs) auto

lemma find_map_update:
  "(\<And>r. pk (f r) = pk r) \<Longrightarrow>
   find (\<lambda>u. pk u = i) (map (\<lambda>r. if pk r = i then f r else r) xs)
     = map_option f (find (\<lambda>u. pk u = i) xs)"
  by (induction xs) auto

lemma first_by_email_member:
  "distinct (map email (users s)) \<Longrightarrow> h \<in> set (users s) \<Longrightarrow> first_by_email (email h) s = Some h"
  by (simp add: first_by_email_def find_distinct_key)

lemma first_by_email_absent:
  "\<forall>u \<in> set (users s). email u \<noteq> a \<Longrightarrow> first_by_email a s = None"
  by (simp add: first_by_email_def find_None_iff)

text \<open>
  Claim C5. Consumption of a stored email-change code, where some user other than the requester
  holds the candidate \<open>new_email\<close> (emails are unique): if the holder is verified, the
  consumption fails with \<open>EmailTaken\<close> and nothing changes, the requester's email included; if
  the holder is unverified, the consumption succeeds, the holder's account is gone and the
  requester's email is \<open>new_email\<close>. Every outcome has both effects or neither: an expired
  code fails and changes nothing as well.
\<close>

theorem email_change_recheck:
  assumes "c \<in> set (objects EmailChangeCode s)"
      and "distinct (map code (objects EmailChangeCode s))"
      and "GET_code req = Some (code c)"
      and "distinct (map email (users s))"
      and "h \<in> set (users s)" and "email h = new_email c" and "pk h \<noteq> user_id c"
      and "get_user (user_id c) s = Some r"
      and "consume EmailChangeCode e req s = (resp, s')"
  shows "if now e > expires_at c then resp = InvalidCode Expired \<and> s' = s
         else if is_verified h then resp = EmailTaken \<and> s' = s
         else resp = Response (Success ''Email address has been changed.'') HTTP_200_OK
              \<and> (\<forall>u \<in> set (users s'). pk u \<noteq> pk h)
              \<and> get_user (user_id c) s' = Some (r\<lparr>email := new_email c\<rparr>)"
proof -
  from assms(1,2,3) have v: "check_is_valid (now e) (GET_code req) (objects EmailChangeCode s)
      = (if now e > expires_at c then Inl Expired else Inr c)"
    by (simp only: check_is_valid_member)
  from assms(4,5,6) have f: "first_by_email (new_email c) s = Some h"
    using first_by_email_member[of s h] by simp
  show ?thesis
  proof (cases "now e > expires_at c")
    case True
    with v consume_invalid[of e req EmailChangeCode s Expired] assms(9) show ?thesis by simp
  next
    case late: False
    show ?thesis
    proof (cases "is_verified h")
      case True
      with late v f assms(9) show ?thesis
        by (simp add: EmailChangeVerify_post_def ActionVerifyView_post_def
              EmailChangeVerify_handle_request_def EmailTaken_def)
    next
      case False
      with late v f assms(9) have
        resp: "resp = Response (Success ''Email address has been changed.'') HTTP_200_OK" and
        s': "s' = delete_codes_of EmailChangeCode (user_id c) (change_user_email c (delete_user h s))"
        by (auto simp: EmailChangeVerify_post_def ActionVerifyView_post_def
              EmailChangeVerify_handle_request_def EmailChangeVerify_handle_action_code_def)
      have u: "users s' = map (\<lambda>r. if pk r = user_id c then r\<lparr>email := new_email c\<rparr> else r)
                            (filter (\<lambda>r. pk r \<noteq> pk h) (users s))"
        by (simp add: s' delete_codes_of_def change_user_email_def update_user_def delete_user_def)
      have gone: "\<forall>u \<in> set (users s'). pk u \<noteq> pk h"
        using assms(7) by (auto simp: u)
      have "find (\<lambda>u. pk u = user_id c) (filter (\<lambda>r. pk r \<noteq> pk h) (users s))
              = find (\<lambda>u. pk u = user_id c) (users s)"
        using assms(7) by (intro find_filter_implied) auto
      with assms(8) have "get_user (user_id c) s' = Some (r\<lparr>email := new_email c\<rparr>)"
        by (simp add: get_user_def u find_map_update)
      with late False resp gone show ?thesis by simp
    qed
  qed
qed

theorem email_change_recheck_witness:
  "consume EmailChangeCode env0 (req0 ''k2'' []) st0 = (EmailTaken, st0)
   \<and> fst (consume EmailChangeCode env0 (req0 ''k1'' []) st0)
       = Response (Success ''Email address has been changed.'') HTTP_200_OK
   \<and> filter (\<lambda>u. pk u = pk bob) (users (snd (consume EmailChangeCode env0 (req0 ''k1'' []) st0))) = []
   \<and> get_user 1 (snd (consume EmailChangeCode env0 (req0 ''k1'' []) st0))
       = Some (alice\<lparr>email := ''b@example.com''\<rparr>)"
proof -
  have d: "distinct (map code (objects EmailChangeCode st0))"
    and de: "distinct (map email (users st0))"
    by (simp_all add: example_defs)
  have m1: "k1 \<in> set (objects EmailChangeCode st0)" and g1: "GET_code (req0 ''k1'' []) = Some (code k1)"
    and h1: "bob \<in> set (users st0)" "email bob = new_email k1" "pk bob \<noteq> user_id k1"
    and r1: "get_user (user_id k1) st0 = Some alice"
    by (simp_all add: example_defs get_user_def)
  have m2: "k2 \<in> set (objects EmailChangeCode st0)" and g2: "GET_code (req0 ''k2'' []) = Some (code k2)"
    and h2: "carol \<in> set (users st0)" "email carol = new_email k2" "pk carol \<noteq> user_id k2"
    and r2: "get_user (user_id k2) st0 = Some alice"
    by (simp_all add: example_defs get_user_def)
  have t: "\<not> now env0 > expires_at k1" "\<not> now env0 > expires_at k2"
     "\<not> is_verified bob" "is_verified carol" "user_id k1 = 1" "new_email k1 = ''b@example.com''"
    by (simp_all add: example_defs)
  from email_change_recheck[OF m1 d g1 de h1 r1, where e = env0
            and resp = "fst (consume EmailChangeCode env0 (req0 ''k1'' []) st0)"
            and s' = "snd (consume EmailChangeCode env0 (req0 ''k1'' []) st0)"]
       email_change_recheck[OF m2 d g2 de h2 r2, where e = env0
            and resp = "fst (consume EmailChangeCode env0 (req0 ''k2'' []) st0)"
            and s' = "snd (consume EmailChangeCode env0 (req0 ''k2'' []) st0)"] t
  show ?thesis by (simp add: prod_eq_iff filter_empty_conv)
qed

lemma create_code_send:
  "create_code e k i ip l ne s = (c, s1) \<Longrightarrow>
   user_id c = i
   \<and> objects k (send_email k c s1) = objects k s @ [c]
   \<and> outbox (send_email k c s1) = outbox s @ [CodeMail k c]
   \<and> users (send_email k c s1) = users s
   \<and> tokens (send_email k c s1) = tokens s"
  by (cases k) (auto simp: create_code_def send_email_def Let_def)

text \<open>
  Claim C6. Password-reset issuance, for a request that passes the serializer and with unique
  emails: when a verified and active user has the given email, a code owned by that user is
  added to the table and handed to the email dispatcher, with status 201; in every other case
  (no such user, unverified, inactive) the answer is the one response \<open>NotAllowed\<close> and
  nothing changes.
\<close>

theorem password_reset_issuance:
  assumes "password_reset_is_valid e (req_data req)" and "distinct (map email (users s))"
  shows "(\<forall>u \<in> set (users s).
            email u = d_email (req_data req) \<and> is_verified u \<and> is_active u \<longrightarrow>
            (\<exists>c s'. PasswordReset_post e req s =
                 (Response (SuccessEmail
                    ''The email with the password reset code will be sent soon.'' (email u))
                    HTTP_201_CREATED, s')
               \<and> user_id c = pk u
               \<and> password_reset_codes s' = password_reset_codes s @ [c]
               \<and> outbox s' = outbox s @ [CodeMail PasswordResetCode c]))
       \<and> (\<not> (\<exists>u \<in> set (users s).
               email u = d_email (req_data req) \<and> is_verified u \<and> is_active u) \<longrightarrow>
            PasswordReset_post e req s = (NotAllowed, s))"
proof (intro conjI ballI impI)
  fix u assume u: "u \<in> set (users s)"
    and p: "email u = d_email (req_data req) \<and> is_verified u \<and> is_active u"
  with assms(2) have f: "first_by_email (d_email (req_data req)) s = Some u"
    using first_by_email_member[of s u] by simp
  obtain c s1 where cc: "create_code e PasswordResetCode (pk u) (ip_or_default req)
                         (link_or_empty (req_data req)) [] s = (c, s1)"
    by (cases "create_code e PasswordResetCode (pk u) (ip_or_default req)
                         (link_or_empty (req_data req)) [] s")
  note cs = create_code_send[OF cc]
  from assms(1) f p cc have
    "PasswordReset_post e req s =
       (Response (SuccessEmail
          ''The email with the password reset code will be sent soon.'' (email u))
          HTTP_201_CREATED, send_email PasswordResetCode c s1)"
    by (simp add: PasswordReset_post_def)
  with cs show "\<exists>c s'. PasswordReset_post e req s =
                 (Response (SuccessEmail
                    ''The email with the password reset code will be sent soon.'' (email u))
                    HTTP_201_CREATED, s')
               \<and> user_id c = pk u
               \<and> password_reset_codes s' = password_reset_codes s @ [c]
               \<and> outbox s' = outbox s @ [CodeMail PasswordResetCode c]"
    by (intro exI[of _ c] exI[of _ "send_email PasswordResetCode c s1"]) simp
next
  assume n: "\<not> (\<exists>u \<in> set (users s).
               email u = d_email (req_data req) \<and> is_verified u \<and> is_active u)"
  show "PasswordReset_post e req s = (NotAllowed, s)"
  proof (cases "first_by_email (d_email (req_data req)) s")
    case None
    with assms(1) show ?thesis by (simp add: PasswordReset_post_def NotAllowed_def)
  next
    case (Some u)
    then have "u \<in> set (users s) \<and> email u = d_email (req_data req)"
      by (auto simp: first_by_email_def dest: find_in_set)
    with n have "\<not> (is_verified u \<and> is_active u)" by blast
    with Some assms(1) show ?thesis by (auto simp: PasswordReset_post_def NotAllowed_def)
  qed
qed


theorem password_reset_issuance_witness:
  "(\<exists>c s'. PasswordReset_post env0 (req0 [] ''a@example.com'') st0 =
       (Response (SuccessEmail ''The email with the password reset code will be sent soon.''
          ''a@example.com'') HTTP_201_CREATED, s')
     \<and> user_id c = 1
     \<and> password_reset_codes s' = password_reset_codes st0 @ [c]
     \<and> outbox s' = outbox st0 @ [CodeMail PasswordResetCode c])
   \<and> PasswordReset_post env0 (req0 [] ''b@example.com'') st0 = (NotAllowed, st0)
   \<and> PasswordReset_post env0 (req0 [] ''nobody@example.com'') st0 = (NotAllowed, st0)"
proof -
  have v: "\<And>a. password_reset_is_valid env0 (req_data (req0 [] a))" by (simp add: example_defs)
  have d: "distinct (map email (users st0))" by (simp add: example_defs)
  have a: "alice \<in> set (users st0)"
     "email alice = d_email (req_data (req0 [] ''a@example.com'')) \<and> is_verified alice \<and> is_active alice"
     "email alice = ''a@example.com''" "pk alice = 1"
    by (simp_all add: example_defs)
  have b: "\<not> (\<exists>u \<in> set (users st0).
               email u = d_email (req_data (req0 [] ''b@example.com'')) \<and> is_verified u \<and> is_active u)"
    by (simp add: example_defs)
  have n: "\<not> (\<exists>u \<in> set (users st0).
               email u = d_email (req_data (req0 [] ''nobody@example.com'')) \<and> is_verified u \<and> is_active u)"
    by (simp add: example_defs)
  from password_reset_issuance[OF v d, of "''a@example.com''"] a
  have 1: "\<exists>c s'. PasswordReset_post env0 (req0 [] ''a@example.com'') st0 =
       (Response (SuccessEmail ''The email with the password reset code will be sent soon.''
          ''a@example.com'') HTTP_201_CREATED, s')
     \<and> user_id c = 1
     \<and> password_reset_codes s' = password_reset_codes st0 @ [c]
     \<and> outbox s' = outbox st0 @ [CodeMail PasswordResetCode c]"
    by (metis (no_types, lifting))
  from password_reset_issuance[OF v d, of "''b@example.com''"] b
  have 2: "PasswordReset_post env0 (req0 [] ''b@example.com'') st0 = (NotAllowed, st0)" by blast
  from password_reset_issuance[OF v d, of "''nobody@example.com''"] n
  have 3: "PasswordReset_post env0 (req0 [] ''nobody@example.com'') st0 = (NotAllowed, st0)" by blast
  from 1 2 3 show ?thesis by blast
qed

lemma check_verified_users_taken:
  assumes "distinct (map email (users s))" and "u \<in> set (users s)"
      and "email u = d_email d" and "is_verified u"
  shows "check_verified_users d s = (Inl ''Email address already taken.'', s)"
proof -
  from assms(1,2,3) have "find (\<lambda>x. email x = d_email d) (users s) = Some u"
    using find_distinct_key[of email "users s" u] by simp
  with assms(4) show ?thesis by (simp add: check_verified_users_def get_or_create_def)
qed

lemma check_verified_users_unverified:
  assumes "distinct (map email (users s))" and "r \<in> set (users s)"
      and "email r = d_email d" and "\<not> is_verified r"
  shows "check_verified_users d s = (Inr r, s)"
proof -
  from assms(1,2,3) have "find (\<lambda>x. email x = d_email d) (users s) = Some r"
    using find_distinct_key[of email "users s" r] by simp
  with assms(4) show ?thesis by (simp add: check_verified_users_def get_or_create_def)
qed

lemma check_verified_users_unowned:
  assumes "\<forall>x \<in> set (users s). email x \<noteq> d_email d"
  shows "check_verified_users d s =
           (Inr \<lparr>pk = Suc (user_seq s), email = d_email d, is_verified = False,
                 is_active = True, password = []\<rparr>,
            s\<lparr>users := users s @ [\<lparr>pk = Suc (user_seq s), email = d_email d,
                                    is_verified = False, is_active = True, password = []\<rparr>],
              user_seq := Suc (user_seq s)\<rparr>)"
proof -
  from assms have "find (\<lambda>x. email x = d_email d) (users s) = None"
    by (simp add: find_None_iff)
  then show ?thesis
    by (simp add: check_verified_users_def get_or_create_def fresh_pk_def Let_def)
qed

lemma map_replace_absent:
  "\<forall>x \<in> set xs. pk x \<noteq> i \<Longrightarrow> map (\<lambda>x. if pk x = i then u else x) xs = xs"
  by (induction xs) auto

text \<open>
  Claim C7. Signup issuance, for a request that passes the signup serializer, with unique emails
  and primary keys that the sequence has given out. When a verified user owns the requested
  email, the answer is \<open>EmailTaken\<close> and nothing changes, so no signup code is created. When
  an unverified user \<open>r\<close> owns it and the user serializer accepts the request's fields for
  \<open>r\<close>, the row of \<open>r\<close> is overwritten with the serializer's write. When no user owns it and
  the user serializer accepts the fields for the new stub (the requested email, not verified),
  the stub with the serializer's write is the one row added. In both cases the answer is 201
  with that user, one signup code owned by that user is added to the table, that code is
  handed to the email dispatcher, and nothing else changes.
\<close>

theorem signup_issuance:
  assumes "signup_is_valid e (req_data req)" and "distinct (map email (users s))"
      and "\<forall>x \<in> set (users s). pk x \<le> user_seq s"
  shows "((\<exists>u \<in> set (users s). email u = d_email (req_data req) \<and> is_verified u) \<longrightarrow>
            Signup_post e req s = (EmailTaken, s))
       \<and> (\<forall>r \<in> set (users s).
            email r = d_email (req_data req) \<and> \<not> is_verified r
              \<and> user_is_valid e r (req_data req) \<longrightarrow>
            (let u = (user_update e r (req_data req))\<lparr>pk := pk r\<rparr>;
                 c = \<lparr>code = new_code e, user_id = pk r,
                      expires_at = now e + period e SignupCode, ipaddr = ip_or_default req,
                      link = link_or_empty (req_data req), new_email = []\<rparr>
             in Signup_post e req s =
                  (Response (UserData u) HTTP_201_CREATED,
                   s\<lparr>users := map (\<lambda>x. if pk x = pk r then u else x) (users s),
                     signup_codes := signup_codes s @ [c],
                     outbox := outbox s @ [CodeMail SignupCode c]\<rparr>)))
       \<and> (let stub = \<lparr>pk = Suc (user_seq s), email = d_email (req_data req),
                       is_verified = False, is_active = True, password = []\<rparr>;
               u = (user_update e stub (req_data req))\<lparr>pk := pk stub\<rparr>;
               c = \<lparr>code = new_code e, user_id = pk stub,
                    expires_at = now e + period e SignupCode, ipaddr = ip_or_default req,
                    link = link_or_empty (req_data req), new_email = []\<rparr>
           in (\<forall>x \<in> set (users s). email x \<noteq> d_email (req_data req))
                \<and> user_is_valid e stub (req_data req) \<longrightarrow>
              Signup_post e req s =
                (Response (UserData u) HTTP_201_CREATED,
                 s\<lparr>users := users s @ [u],
                   user_seq := Suc (user_seq s),
                   signup_codes := signup_codes s @ [c],
                   outbox := outbox s @ [CodeMail SignupCode c]\<rparr>))"
proof (intro conjI ballI impI)
  assume "\<exists>u \<in> set (users s). email u = d_email (req_data req) \<and> is_verified u"
  then obtain u where "u \<in> set (users s)" "email u = d_email (req_data req)" "is_verified u"
    by blast
  from check_verified_users_taken[OF assms(2) this] assms(1)
  show "Signup_post e req s = (EmailTaken, s)"
    by (simp add: Signup_post_def EmailTaken_def)
next
  fix r
  assume r: "r \<in> set (users s)"
    and h: "email r = d_email (req_data req) \<and> \<not> is_verified r
              \<and> user_is_valid e r (req_data req)"
  from h have cv: "check_verified_users (req_data req) s = (Inr r, s)"
    using check_verified_users_unverified[OF assms(2) r] by simp
  from r have ex: "\<exists>x \<in> set (users s). pk x = pk r" by blast
  from assms(1) cv h ex
  show "let u = (user_update e r (req_data req))\<lparr>pk := pk r\<rparr>;
            c = \<lparr>code = new_code e, user_id = pk r,
                 expires_at = now e + period e SignupCode, ipaddr = ip_or_default req,
                 link = link_or_empty (req_data req), new_email = []\<rparr>
        in Signup_post e req s =
             (Response (UserData u) HTTP_201_CREATED,
              s\<lparr>users := map (\<lambda>x. if pk x = pk r then u else x) (users s),
                signup_codes := signup_codes s @ [c],
                outbox := outbox s @ [CodeMail SignupCode c]\<rparr>)"
    by (simp add: Signup_post_def Let_def save_user_def create_code_def send_email_def)
next
  define stub where "stub = \<lparr>pk = Suc (user_seq s), email = d_email (req_data req),
                       is_verified = False, is_active = True, password = []\<rparr>"
  define u where "u = (user_update e stub (req_data req))\<lparr>pk := pk stub\<rparr>"
  have "Signup_post e req s =
          (Response (UserData u) HTTP_201_CREATED,
           s\<lparr>users := users s @ [u],
             user_seq := Suc (user_seq s),
             signup_codes := signup_codes s @ [\<lparr>code = new_code e, user_id = pk stub,
                    expires_at = now e + period e SignupCode, ipaddr = ip_or_default req,
                    link = link_or_empty (req_data req), new_email = []\<rparr>],
             outbox := outbox s @ [CodeMail SignupCode \<lparr>code = new_code e, user_id = pk stub,
                    expires_at = now e + period e SignupCode, ipaddr = ip_or_default req,
                    link = link_or_empty (req_data req), new_email = []\<rparr>]\<rparr>)"
    if un: "\<forall>x \<in> set (users s). email x \<noteq> d_email (req_data req)"
      and va: "user_is_valid e stub (req_data req)"
  proof -
    have cv: "check_verified_users (req_data req) s =
                (Inr stub, s\<lparr>users := users s @ [stub], user_seq := Suc (user_seq s)\<rparr>)"
      using check_verified_users_unowned[OF un] by (simp add: stub_def)
    from assms(3) have "\<forall>x \<in> set (users s). pk x \<noteq> pk stub" by (auto simp: stub_def)
    then have keep: "map (\<lambda>x. if pk x = pk stub then u else x) (users s) = users s"
      by (rule map_replace_absent)
    have pku: "pk u = pk stub" by (simp add: u_def)
    from assms(1) cv va keep pku show ?thesis
      by (simp add: Signup_post_def Let_def save_user_def create_code_def send_email_def
            u_def[symmetric])
  qed
  then show "let stub = \<lparr>pk = Suc (user_seq s), email = d_email (req_data req),
                       is_verified = False, is_active = True, password = []\<rparr>;
               u = (user_update e stub (req_data req))\<lparr>pk := pk stub\<rparr>;
               c = \<lparr>code = new_code e, user_id = pk stub,
                    expires_at = now e + period e SignupCode, ipaddr = ip_or_default req,
                    link = link_or_empty (req_data req), new_email = []\<rparr>
           in (\<forall>x \<in> set (users s). email x \<noteq> d_email (req_data req))
                \<and> user_is_valid e stub (req_data req) \<longrightarrow>
              Signup_post e req s =
                (Response (UserData u) HTTP_201_CREATED,
                 s\<lparr>users := users s @ [u],
                   user_seq := Suc (user_seq s),
                   signup_codes := signup_codes s @ [c],
                   outbox := outbox s @ [CodeMail SignupCode c]\<rparr>)"
    by (simp add: Let_def stub_def u_def)
qed

theorem signup_issuance_witness:
  "Signup_post env0 (req0 [] ''a@example.com'') st0 = (EmailTaken, st0)
   \<and> Signup_post env0 (req0 [] ''b@example.com'') st0 =
       (Response (UserData (bob\<lparr>password := ''old''\<rparr>)) HTTP_201_CREATED,
        st0\<lparr>users := [alice, bob\<lparr>password := ''old''\<rparr>, carol],
            signup_codes := [k1, k2, k3,
               \<lparr>code = ''fresh'', user_id = 2, expires_at = 110, ipaddr = ''0.0.0.0'',
                link = [], new_email = []\<rparr>],
            outbox := [CodeMail SignupCode
               \<lparr>code = ''fresh'', user_id = 2, expires_at = 110, ipaddr = ''0.0.0.0'',
                link = [], new_email = []\<rparr>]\<rparr>)
   \<and> Signup_post env0 (req0 [] ''new@example.com'') st0 =
       (Response (UserData \<lparr>pk = 4, email = ''new@example.com'', is_verified = False,
                            is_active = True, password = ''old''\<rparr>) HTTP_201_CREATED,
        st0\<lparr>users := [alice, bob, carol,
               \<lparr>pk = 4, email = ''new@example.com'', is_verified = False, is_active = True,
                password = ''old''\<rparr>],
            user_seq := 4,
            signup_codes := [k1, k2, k3,
               \<lparr>code = ''fresh'', user_id = 4, expires_at = 110, ipaddr = ''0.0.0.0'',
                link = [], new_email = []\<rparr>],
            outbox := [CodeMail SignupCode
               \<lparr>code = ''fresh'', user_id = 4, expires_at = 110, ipaddr = ''0.0.0.0'',
                link = [], new_email = []\<rparr>]\<rparr>)"
proof -
  have v: "\<And>a. signup_is_valid env0 (req_data (req0 [] a))" by (simp add: example_defs)
  have d: "distinct (map email (users st0))" by (simp add: example_defs)
  have i: "\<forall>x \<in> set (users st0). pk x \<le> user_seq st0" by (simp add: example_defs)
  from signup_issuance[OF v d i, of "''a@example.com''"]
  have 1: "Signup_post env0 (req0 [] ''a@example.com'') st0 = (EmailTaken, st0)"
    by (simp add: example_defs)
  from signup_issuance[OF v d i, of "''b@example.com''"]
  have 2: "Signup_post env0 (req0 [] ''b@example.com'') st0 =
       (Response (UserData (bob\<lparr>password := ''old''\<rparr>)) HTTP_201_CREATED,
        st0\<lparr>users := [alice, bob\<lparr>password := ''old''\<rparr>, carol],
            signup_codes := [k1, k2, k3,
               \<lparr>code = ''fresh'', user_id = 2, expires_at = 110, ipaddr = ''0.0.0.0'',
                link = [], new_email = []\<rparr>],
            outbox := [CodeMail SignupCode
               \<lparr>code = ''fresh'', user_id = 2, expires_at = 110, ipaddr = ''0.0.0.0'',
                link = [], new_email = []\<rparr>]\<rparr>)"
    by (simp add: example_defs Let_def ip_or_default_def link_or_empty_def)
  from signup_issuance[OF v d i, of "''new@example.com''"]
  have 3: "Signup_post env0 (req0 [] ''new@example.com'') st0 =
       (Response (UserData \<lparr>pk = 4, email = ''new@example.com'', is_verified = False,
                            is_active = True, password = ''old''\<rparr>) HTTP_201_CREATED,
        st0\<lparr>users := [alice, bob, carol,
               \<lparr>pk = 4, email = ''new@example.com'', is_verified = False, is_active = True,
                password = ''old''\<rparr>],
            user_seq := 4,
            signup_codes := [k1, k2, k3,
               \<lparr>code = ''fresh'', user_id = 4, expires_at = 110, ipaddr = ''0.0.0.0'',
                link = [], new_email = []\<rparr>],
            outbox := [CodeMail SignupCode
               \<lparr>code = ''fresh'', user_id = 4, expires_at = 110, ipaddr = ''0.0.0.0'',
                link = [], new_email = []\<rparr>]\<rparr>)"
    by (simp add: example_defs Let_def ip_or_default_def link_or_empty_def)
  from 1 2 3 show ?thesis by blast
qed

lemma precheck_failure: "precheck k e req s = (resp, s') \<Longrightarrow> s' = s"
  using precheck_state[of k e req s] by simp

lemma consume_failure:
  assumes "consume k e req s = (resp, s')" and "is_failure resp"
  shows "s' = s"
  using assms
  by (cases k)
     (auto simp: consume_defs is_failure_def status_defs
        split: sum.splits option.splits if_splits)

lemma Signup_post_failure:
  assumes "Signup_post e req s = (resp, s')" and "is_failure resp"
      and "\<not> signup_is_valid e (req_data req) \<or> first_by_email (d_email (req_data req)) s \<noteq> None"
  shows "s' = s"
proof (cases "signup_is_valid e (req_data req)")
  case False
  with assms(1) show ?thesis by (simp add: Signup_post_def)
next
  case True
  with assms(3) obtain u where f: "find (\<lambda>u. email u = d_email (req_data req)) (users s) = Some u"
    by (auto simp: first_by_email_def)
  obtain c s3 where cc: "create_code e SignupCode (pk u) (ip_or_default req)
                         (link_or_empty (req_data req)) []
                         (save_user ((user_update e u (req_data req))\<lparr>pk := pk u\<rparr>) s) = (c, s3)"
    by (cases "create_code e SignupCode (pk u) (ip_or_default req)
                         (link_or_empty (req_data req)) []
                         (save_user ((user_update e u (req_data req))\<lparr>pk := pk u\<rparr>) s)")
  from True f cc assms(1,2) show ?thesis
    by (auto simp: Signup_post_def check_verified_users_def get_or_create_def Let_def
          is_failure_def status_defs split: if_splits)
qed

lemma issue_failure:
  assumes "is_failure resp"
  shows "PasswordReset_post e req s = (resp, s') \<Longrightarrow> s' = s"
    and "EmailChange_post e req s = (resp, s') \<Longrightarrow> s' = s"
    and "PasswordChange_post e req s = (resp, s') \<Longrightarrow> s' = s"
    and "Login_post e req s = (resp, s') \<Longrightarrow> s' = s"
    and "Logout_post e req s = (resp, s') \<Longrightarrow> s' = s"
  using assms
  by (auto simp: PasswordReset_post_def EmailChange_post_def PasswordChange_post_def
        Login_post_def Logout_post_def token_get_or_create_def Let_def is_failure_def status_defs
        split: option.splits if_splits prod.splits)

text \<open>
  Claim C8, amended. Whenever an operation returns a failure result, the state is what it was
  before the request: no user, code or token row was created, deleted or modified; for signup
  issuance this is stated for the requests that fail the signup serializer or name an email that
  already has a user row.
\<close>

theorem failure_before_any_mutation:
  assumes "run op e req s = (resp, s')" and "is_failure resp"
      and "op = SignupIssue \<longrightarrow>
             \<not> signup_is_valid e (req_data req) \<or> first_by_email (d_email (req_data req)) s \<noteq> None"
  shows "s' = s"
proof (cases op)
  case (Precheck k)
  with assms(1) show ?thesis by (simp add: precheck_failure)
next
  case (Consume k)
  with assms(1,2) show ?thesis by (simp add: consume_failure)
next
  case SignupIssue
  with assms show ?thesis by (simp add: Signup_post_failure)
next
  case PasswordResetIssue
  with assms(1,2) show ?thesis by (simp add: issue_failure)
next
  case EmailChangeIssue
  with assms(1,2) show ?thesis by (simp add: issue_failure)
next
  case PasswordChange
  with assms(1,2) show ?thesis by (simp add: issue_failure)
next
  case Login
  with assms(1,2) show ?thesis by (simp add: issue_failure)
next
  case Logout
  with assms(1,2) show ?thesis by (simp add: issue_failure)
qed

theorem failure_before_any_mutation_witness:
  "is_failure (fst (run SignupIssue env_reject (req0 [] ''b@example.com'') st0))
   \<and> snd (run SignupIssue env_reject (req0 [] ''b@example.com'') st0) = st0
   \<and> is_failure (fst (run (Consume EmailChangeCode) env0 (req0 ''k2'' []) st0))
   \<and> snd (run (Consume EmailChangeCode) env0 (req0 ''k2'' []) st0) = st0"
proof -
  have f1: "is_failure (fst (run SignupIssue env_reject (req0 [] ''b@example.com'') st0))"
    by (simp add: Signup_post_def check_verified_users_def get_or_create_def Let_def
          is_failure_def status_defs example_defs)
  have h1: "SignupIssue = SignupIssue \<longrightarrow>
             \<not> signup_is_valid env_reject (req_data (req0 [] ''b@example.com''))
             \<or> first_by_email (d_email (req_data (req0 [] ''b@example.com''))) st0 \<noteq> None"
    by (simp add: first_by_email_def example_defs)
  have f2: "is_failure (fst (run (Consume EmailChangeCode) env0 (req0 ''k2'' []) st0))"
    by (simp add: consume_defs storage_defs is_failure_def status_defs example_defs)
  have h2: "Consume EmailChangeCode = SignupIssue \<longrightarrow>
             \<not> signup_is_valid env0 (req_data (req0 ''k2'' []))
             \<or> first_by_email (d_email (req_data (req0 ''k2'' []))) st0 \<noteq> None"
    by simp
  from failure_before_any_mutation[OF _ f1 h1, where s' = "snd (run SignupIssue env_reject (req0 [] ''b@example.com'') st0)"]
       failure_before_any_mutation[OF _ f2 h2, where s' = "snd (run (Consume EmailChangeCode) env0 (req0 ''k2'' []) st0)"]
       f1 f2
  show ?thesis by simp
qed

text \<open>
  Signup issuance for an email that no user holds yet, with fields that the user serializer
  rejects: \<^verbatim>\<open>get_or_create\<close> has inserted the unverified stub before the serializer is
  asked, and the 400 response leaves it in the table.
\<close>

theorem signup_failure_leaves_stub:
  "is_failure (fst (run SignupIssue env_reject (req0 [] ''new@example.com'') empty_state))
   \<and> snd (run SignupIssue env_reject (req0 [] ''new@example.com'') empty_state) \<noteq> empty_state
   \<and> users empty_state = []
   \<and> users (snd (run SignupIssue env_reject (req0 [] ''new@example.com'') empty_state))
       = [\<lparr>pk = 1, email = ''new@example.com'', is_verified = False, is_active = True,
           password = []\<rparr>]"
  by (simp add: Signup_post_def check_verified_users_def get_or_create_def fresh_pk_def Let_def
        is_failure_def status_defs example_defs)

lemma find_replaced:
  "\<exists>r \<in> set xs. pk r = pk u \<Longrightarrow>
   find (\<lambda>r. pk r = pk u) (map (\<lambda>r. if pk r = pk u then u else r) xs) = Some u"
  by (induction xs) auto

lemma find_missing_append:
  "\<not> (\<exists>r \<in> set xs. P r) \<Longrightarrow> P u \<Longrightarrow> find P (xs @ [u]) = Some u"
  by (induction xs) auto

lemma find_save_user: "find (\<lambda>r. pk r = pk u) (users (save_user u s)) = Some u"
proof (cases "\<exists>r \<in> set (users s). pk r = pk u")
  case True
  then show ?thesis by (simp add: save_user_def find_replaced)
next
  case False
  then show ?thesis by (simp add: save_user_def find_missing_append)
qed

lemma active_rows_save_user:
  assumes "distinct (map pk (users s))" and "u \<in> set (users s)"
      and "pk u' = pk u" and "is_active u' = is_active u"
  shows "map (\<lambda>r. (pk r, is_active r)) (users (save_user u' s))
           = map (\<lambda>r. (pk r, is_active r)) (users s)"
proof -
  from assms(1) have inj: "inj_on pk (set (users s))" by (simp add: distinct_map)
  have "\<And>r. r \<in> set (users s) \<Longrightarrow> pk r = pk u \<Longrightarrow> r = u"
    using inj assms(2) by (auto dest: inj_onD)
  with assms(2,3,4) show ?thesis
    by (auto simp: save_user_def)
qed

lemma token_valid_rows:
  "token_valid s k = (\<exists>t \<in> set (tokens s). key t = k
      \<and> (token_user t, True) \<in> set (map (\<lambda>r. (pk r, is_active r)) (users s)))"
proof -
  have "(\<exists>u \<in> set (users s). pk u = i \<and> is_active u)
          = ((i, True) \<in> set (map (\<lambda>r. (pk r, is_active r)) (users s)))" for i
    by (auto simp: image_iff)
  then show ?thesis by (simp only: token_valid_def)
qed

text \<open>
  Claim C10. The password change never touches the token table; when the request passes the
  serializer and the current password matches, it answers 200 and the caller's row carries the
  new password. With the caller's row in the user table (primary keys unique), a token is valid
  after the operation exactly when it was valid before.
\<close>

theorem password_change_keeps_tokens:
  "tokens (snd (PasswordChange_post e req s)) = tokens s
   \<and> (password_change_is_valid e (req_data req)
        \<and> check_password (request_user req) (d_password (req_data req)) \<longrightarrow>
      fst (PasswordChange_post e req s) = Response (Success ''Password has been changed.'') HTTP_200_OK
      \<and> get_user (pk (request_user req)) (snd (PasswordChange_post e req s))
          = Some ((request_user req)\<lparr>password := d_new_password (req_data req)\<rparr>))
   \<and> (distinct (map pk (users s)) \<and> request_user req \<in> set (users s) \<longrightarrow>
        (\<forall>k. token_valid (snd (PasswordChange_post e req s)) k = token_valid s k))"
proof (intro conjI impI allI)
  show "tokens (snd (PasswordChange_post e req s)) = tokens s"
    by (simp add: PasswordChange_post_def Let_def save_user_def)
next
  assume "password_change_is_valid e (req_data req)
        \<and> check_password (request_user req) (d_password (req_data req))"
  then show "fst (PasswordChange_post e req s) = Response (Success ''Password has been changed.'') HTTP_200_OK"
    by (simp add: PasswordChange_post_def Let_def)
next
  assume v: "password_change_is_valid e (req_data req)
        \<and> check_password (request_user req) (d_password (req_data req))"
  define u' where "u' = set_password (request_user req) (d_new_password (req_data req))"
  have pk': "pk u' = pk (request_user req)" by (simp add: u'_def set_password_def)
  have "find (\<lambda>r. pk r = pk u') (users (save_user u' s)) = Some u'"
    by (rule find_save_user)
  with v pk' show "get_user (pk (request_user req)) (snd (PasswordChange_post e req s))
          = Some ((request_user req)\<lparr>password := d_new_password (req_data req)\<rparr>)"
    by (simp add: PasswordChange_post_def Let_def get_user_def u'_def set_password_def)
next
  fix k
  assume h: "distinct (map pk (users s)) \<and> request_user req \<in> set (users s)"
  have "map (\<lambda>r. (pk r, is_active r)) (users (snd (PasswordChange_post e req s)))
          = map (\<lambda>r. (pk r, is_active r)) (users s)"
    using h active_rows_save_user[of s "request_user req"
            "set_password (request_user req) (d_new_password (req_data req))"]
    by (simp add: PasswordChange_post_def Let_def set_password_def)
  moreover have "tokens (snd (PasswordChange_post e req s)) = tokens s"
    by (simp add: PasswordChange_post_def Let_def save_user_def)
  ultimately show "token_valid (snd (PasswordChange_post e req s)) k = token_valid s k"
    by (simp only: token_valid_rows)
qed


theorem password_change_keeps_tokens_witness:
  "fst (PasswordChange_post env0 (req0 [] []) st0)
     = Response (Success ''Password has been changed.'') HTTP_200_OK
   \<and> tokens (snd (PasswordChange_post env0 (req0 [] []) st0)) = tokens st0
   \<and> get_user 1 (snd (PasswordChange_post env0 (req0 [] []) st0))
       = Some (alice\<lparr>password := ''Str0ngP@ss''\<rparr>)
   \<and> token_valid st0 ''t1''
   \<and> token_valid (snd (PasswordChange_post env0 (req0 [] []) st0)) ''t1''"
proof -
  have v: "password_change_is_valid env0 (req_data (req0 [] []))
        \<and> check_password (request_user (req0 [] [])) (d_password (req_data (req0 [] [])))"
    by (simp add: check_password_def example_defs)
  have d: "distinct (map pk (users st0)) \<and> request_user (req0 [] []) \<in> set (users st0)"
    by (simp add: example_defs)
  have t: "token_valid st0 ''t1''" by (simp add: token_valid_def example_defs)
  have r: "request_user (req0 [] []) = alice" "pk alice = 1"
    "d_new_password (req_data (req0 [] [])) = ''Str0ngP@ss''"
    by (simp_all add: example_defs)
  from password_change_keeps_tokens[of env0 "req0 [] []" st0] v d t r show ?thesis by simp
qed

end
